theory Spec2Isabelle
  imports Complex_Main "HOL-Library.AList"
begin

section \<open>Data model of openvqe/hamiltonian/qubit\_hamiltonian.py\<close>

text \<open>
  Python exceptions that the modelled code can raise: \<open>max\<close> of an empty sequence
  raises ValueError, a call with an unknown keyword argument raises TypeError.
\<close>

datatype error = ValueError | TypeError

text \<open>
  A factor of a term key is the pair (qubit index, Pauli letter); a key is the tuple of
  its factors, the empty tuple being the identity term. Qubit indices are non-negative
  integers, Pauli letters are Python strings. Coefficients are Python numbers, taken
  here as exact complex numbers.
\<close>

type_synonym factor = "nat \<times> string"
type_synonym term_key = "factor list"

text \<open>
  Modelled from the spec: the openfermion class QubitOperator is not part of the
  repository. The spec describes it (section 3, PauliSum) as a mapping from term key
  to complex coefficient. It is a Python dict: the association list keeps the insertion
  order that iteration follows, and its keys are pairwise distinct.
\<close>

record QubitOperator =
  terms :: "(term_key \<times> complex) list"

record QubitHamiltonian =
  hamiltonian :: QubitOperator

text \<open>The invariant of a Python dict held as an association list: no key twice.\<close>

definition dict_inv :: "('k \<times> 'v) list \<Rightarrow> bool" where
  "dict_inv d = distinct (map fst d)"

text \<open>\<open>QubitHamiltonian.index\<close> and \<open>QubitHamiltonian.pauli\<close>: the components of a factor.\<close>

definition index :: "factor \<Rightarrow> nat" where
  "index ituple = fst ituple"

definition pauli :: "factor \<Rightarrow> string" where
  "pauli ituple = snd ituple"

text \<open>\<open>items\<close>, \<open>keys\<close> and \<open>values\<close> of the terms dictionary, in iteration order
  (\<open>values\<close> is a reserved word of Isabelle, hence \<open>values_h\<close>).\<close>

definition items :: "QubitHamiltonian \<Rightarrow> (term_key \<times> complex) list" where
  "items self = terms (hamiltonian self)"

definition keys :: "QubitHamiltonian \<Rightarrow> term_key list" where
  "keys self = map fst (terms (hamiltonian self))"

definition values_h :: "QubitHamiltonian \<Rightarrow> complex list" where
  "values_h self = map snd (terms (hamiltonian self))"

subsection \<open>Hermiticity checks\<close>

text \<open>
  \<open>is_hermitian\<close> scans the values and returns False at the first one whose imaginary
  part is not 0.0; \<open>is_antihermitian\<close> does the same with the real part.
\<close>

fun is_hermitian_loop :: "complex list \<Rightarrow> bool" where
  "is_hermitian_loop [] = True"
| "is_hermitian_loop (v # vs) = (if Im v \<noteq> 0 then False else is_hermitian_loop vs)"

definition is_hermitian :: "QubitHamiltonian \<Rightarrow> bool" where
  "is_hermitian self = is_hermitian_loop (values_h self)"

fun is_antihermitian_loop :: "complex list \<Rightarrow> bool" where
  "is_antihermitian_loop [] = True"
| "is_antihermitian_loop (v # vs) = (if Re v \<noteq> 0 then False else is_antihermitian_loop vs)"

definition is_antihermitian :: "QubitHamiltonian \<Rightarrow> bool" where
  "is_antihermitian self = is_antihermitian_loop (values_h self)"

subsection \<open>The operator constructors used by the class\<close>

text \<open>
  Modelled from the spec: the constructor of the openfermion QubitOperator. With a term
  key and a coefficient it builds the one-entry sum (spec 4.2, \<open>fromTerm\<close>); the key is
  given here already parsed, so \<open>QubitOperator("", 0)\<close> is \<open>QubitOperator_init [] 0\<close>, the
  sum with the single identity key mapped to 0 (spec 4.2, \<open>zero()\<close>), and
  \<open>QubitOperator.identity()\<close> is the single identity key mapped to 1 (\<open>identity()\<close>).
\<close>

definition QubitOperator_init :: "term_key \<Rightarrow> complex \<Rightarrow> QubitOperator" where
  "QubitOperator_init term coefficient = \<lparr>terms = [(term, coefficient)]\<rparr>"

definition QubitOperator_identity :: QubitOperator where
  "QubitOperator_identity = QubitOperator_init [] 1"

definition init_zero :: QubitHamiltonian where
  "init_zero = \<lparr>hamiltonian = QubitOperator_init [] 0\<rparr>"

definition init_unit :: QubitHamiltonian where
  "init_unit = \<lparr>hamiltonian = QubitOperator_identity\<rparr>"

subsection \<open>conjugate, transpose, dagger\<close>

text \<open>
  Python's \<open>str.lower\<close> on ASCII text: the letters A to Z go to a to z, every other
  character stays.
\<close>

definition lower_char :: "char \<Rightarrow> char" where
  "lower_char c =
     (case map_of (zip ''ABCDEFGHIJKLMNOPQRSTUVWXYZ'' ''abcdefghijklmnopqrstuvwxyz'') c of
        None \<Rightarrow> c
      | Some d \<Rightarrow> d)"

definition lower :: "string \<Rightarrow> string" where
  "lower s = map lower_char s"

text \<open>
  The inner loop of \<open>conjugate\<close> and of \<open>transpose\<close> (the same text in both): starting
  from \<open>sign = 1\<close>, every factor of the key whose Pauli letter lower-cases to "y"
  multiplies the sign by -1.
\<close>

fun sign_loop :: "int \<Rightarrow> term_key \<Rightarrow> int" where
  "sign_loop sign [] = sign"
| "sign_loop sign (term # key) =
     (let p = pauli term
      in if lower p = ''y'' then sign_loop (sign * (- 1)) key else sign_loop sign key)"

text \<open>
  The outer loops. \<open>d.terms[key] = x\<close> is the dict assignment: an existing key keeps its
  place and takes the new value, a new key is appended (\<open>AList.update\<close>).
\<close>

fun conjugate_loop :: "(term_key \<times> complex) list \<Rightarrow> QubitOperator \<Rightarrow> QubitOperator" where
  "conjugate_loop [] conj_hamiltonian = conj_hamiltonian"
| "conjugate_loop ((key, val) # rest) conj_hamiltonian =
     (let sign = sign_loop 1 key
      in conjugate_loop rest
           (conj_hamiltonian\<lparr>terms :=
              AList.update key (of_int sign * cnj val) (terms conj_hamiltonian)\<rparr>))"

definition conjugate :: "QubitHamiltonian \<Rightarrow> QubitHamiltonian" where
  "conjugate self =
     \<lparr>hamiltonian = conjugate_loop (terms (hamiltonian self)) (QubitOperator_init [] 0)\<rparr>"

fun transpose_loop :: "(term_key \<times> complex) list \<Rightarrow> QubitOperator \<Rightarrow> QubitOperator" where
  "transpose_loop [] trans_hamiltonian = trans_hamiltonian"
| "transpose_loop ((key, val) # rest) trans_hamiltonian =
     (let sign = sign_loop 1 key
      in transpose_loop rest
           (trans_hamiltonian\<lparr>terms :=
              AList.update key (of_int sign * val) (terms trans_hamiltonian)\<rparr>))"

definition transpose_h :: "QubitHamiltonian \<Rightarrow> QubitHamiltonian" where
  "transpose_h self =
     \<lparr>hamiltonian = transpose_loop (terms (hamiltonian self)) (QubitOperator_init [] 0)\<rparr>"

fun dagger_loop :: "(term_key \<times> complex) list \<Rightarrow> QubitOperator \<Rightarrow> QubitOperator" where
  "dagger_loop [] dag_hamiltonian = dag_hamiltonian"
| "dagger_loop ((key, val) # rest) dag_hamiltonian =
     dagger_loop rest
       (dag_hamiltonian\<lparr>terms := AList.update key (cnj val) (terms dag_hamiltonian)\<rparr>)"

definition dagger :: "QubitHamiltonian \<Rightarrow> QubitHamiltonian" where
  "dagger self =
     \<lparr>hamiltonian = dagger_loop (terms (hamiltonian self)) (QubitOperator_init [] 0)\<rparr>"

text \<open>
  The statements of the spec that the theorems compare the code with: the number of
  Y-axis factors of a key (the letter in either case, as the code accepts both), and
  a sum in which every coefficient is conjugated and nothing else is changed.
\<close>

definition is_Y :: "factor \<Rightarrow> bool" where
  "is_Y t = (pauli t = ''Y'' \<or> pauli t = ''y'')"

definition count_Y :: "term_key \<Rightarrow> nat" where
  "count_Y key = length (filter is_Y key)"

definition conjugate_coefficients_only :: "QubitHamiltonian \<Rightarrow> QubitHamiltonian" where
  "conjugate_coefficients_only self =
     \<lparr>hamiltonian = \<lparr>terms = map (\<lambda>(key, val). (key, cnj val)) (terms (hamiltonian self))\<rparr>\<rparr>"

text \<open>
  Modelled from the spec: equality of two sums is equality of their key to coefficient
  mappings, with exact coefficients (spec 4.2); \<open>QubitHamiltonian.__eq__\<close> delegates to
  it. The test runs over the keys of both dictionaries.
\<close>

definition QubitOperator_eq :: "QubitOperator \<Rightarrow> QubitOperator \<Rightarrow> bool" where
  "QubitOperator_eq a b =
     list_all (\<lambda>k. map_of (terms a) k = map_of (terms b) k)
       (map fst (terms a) @ map fst (terms b))"

definition QubitHamiltonian_eq :: "QubitHamiltonian \<Rightarrow> QubitHamiltonian \<Rightarrow> bool" where
  "QubitHamiltonian_eq self other = QubitOperator_eq (hamiltonian self) (hamiltonian other)"

subsection \<open>n\_qubits\<close>

text \<open>
  Python's \<open>max\<close> of a list: ValueError on the empty list, the largest element
  otherwise.
\<close>

definition py_max :: "nat list \<Rightarrow> error + nat" where
  "py_max xs = (case xs of [] \<Rightarrow> Inl ValueError | x # rest \<Rightarrow> Inr (fold max rest x))"

text \<open>
  The loop of \<open>n_qubits\<close> over the items: the indices of the key are collected, their
  maximum is taken (which raises on a key without factors) and merged into the running
  maximum. The property returns the final value plus one.
\<close>

fun n_qubits_loop :: "nat \<Rightarrow> (term_key \<times> complex) list \<Rightarrow> error + nat" where
  "n_qubits_loop n_qubits [] = Inr n_qubits"
| "n_qubits_loop n_qubits ((key, val) # rest) =
     (let indices = map index key
      in case py_max indices of
           Inl e \<Rightarrow> Inl e
         | Inr m \<Rightarrow> n_qubits_loop (max n_qubits m) rest)"

definition n_qubits :: "QubitHamiltonian \<Rightarrow> error + nat" where
  "n_qubits self =
     (case n_qubits_loop 0 (items self) of
        Inl e \<Rightarrow> Inl e
      | Inr n \<Rightarrow> Inr (n + 1))"

text \<open>All qubit indices that appear in the keys of a sum.\<close>

definition all_indices :: "QubitHamiltonian \<Rightarrow> nat list" where
  "all_indices self = concat (map (\<lambda>key. map index key) (keys self))"

subsection \<open>PauliString\<close>

text \<open>
  \<open>_data\<close> is the dict from qubit to Pauli letter, in insertion order; \<open>_coeff\<close> is the
  coefficient or None.
\<close>

record PauliString =
  data :: "(nat \<times> string) list"
  coeff_opt :: "complex option"

text \<open>The property \<open>coeff\<close>: 1 when no coefficient is stored.\<close>

definition coeff :: "PauliString \<Rightarrow> complex" where
  "coeff self = (case coeff_opt self of None \<Rightarrow> 1 | Some c \<Rightarrow> c)"

text \<open>\<open>key_openfermion\<close>: the items of the dict, appended one by one to a list.\<close>

fun key_openfermion_loop :: "(nat \<times> string) list \<Rightarrow> term_key \<Rightarrow> term_key" where
  "key_openfermion_loop [] key = key"
| "key_openfermion_loop ((k, v) # rest) key = key_openfermion_loop rest (key @ [(k, v)])"

definition key_openfermion :: "PauliString \<Rightarrow> term_key" where
  "key_openfermion self = key_openfermion_loop (data self) []"

text \<open>\<open>init_from_openfermion\<close>: every factor of the key is assigned into a new dict.\<close>

fun init_from_openfermion_loop :: "term_key \<Rightarrow> (nat \<times> string) list \<Rightarrow> (nat \<times> string) list" where
  "init_from_openfermion_loop [] d = d"
| "init_from_openfermion_loop (term # key) d =
     (let index = fst term; pauli = snd term
      in init_from_openfermion_loop key (AList.update index pauli d))"

definition init_from_openfermion :: "term_key \<Rightarrow> complex option \<Rightarrow> PauliString" where
  "init_from_openfermion key c = \<lparr>data = init_from_openfermion_loop key [], coeff_opt = c\<rparr>"

text \<open>
  Equality of two Python dicts, as the interpreter decides it: the same number of
  entries, and every entry of the first is an entry of the second. The order of
  insertion plays no role.
\<close>

definition dict_eq :: "('k \<times> 'v) list \<Rightarrow> ('k \<times> 'v) list \<Rightarrow> bool" where
  "dict_eq a b = (length a = length b \<and> list_all (\<lambda>(k, v). map_of b k = Some v) a)"

text \<open>\<open>PauliString.__eq__\<close> compares the two \<open>_data\<close> dicts and nothing else.\<close>

definition PauliString_eq :: "PauliString \<Rightarrow> PauliString \<Rightarrow> bool" where
  "PauliString_eq self other = dict_eq (data self) (data other)"

subsection \<open>The paulistrings property\<close>

text \<open>The getter: one PauliString per item, built from the key with the coefficient.\<close>

definition paulistrings :: "QubitHamiltonian \<Rightarrow> PauliString list" where
  "paulistrings self = map (\<lambda>(k, v). init_from_openfermion k (Some v)) (items self)"

text \<open>
  Modelled from the spec: in-place addition of the openfermion QubitOperator, the
  key-wise merge of coefficients (spec 4.2, add): the coefficient of a key already
  present grows by the addend's, a new key is appended.
\<close>

fun iadd_loop :: "(term_key \<times> complex) list \<Rightarrow> (term_key \<times> complex) list \<Rightarrow> (term_key \<times> complex) list" where
  "iadd_loop d [] = d"
| "iadd_loop d ((k, v) # rest) =
     iadd_loop (case map_of d k of
                  None \<Rightarrow> AList.update k v d
                | Some c \<Rightarrow> AList.update k (c + v) d) rest"

definition QubitOperator_iadd :: "QubitOperator \<Rightarrow> QubitOperator \<Rightarrow> QubitOperator" where
  "QubitOperator_iadd self addend = \<lparr>terms = iadd_loop (terms self) (terms addend)\<rparr>"

text \<open>
  The setter calls the constructor as \<open>QubitOperator(term=..., value=...)\<close>, while
  \<open>init_from_paulistring\<close> calls it as \<open>QubitOperator(term=..., coefficient=...)\<close>. What
  the constructor, which is not part of the repository, does with the keyword \<open>value\<close>
  is a parameter of the model: when it accepts the keyword as the coefficient, the
  call builds the one-entry sum; when it does not, Python raises TypeError.
\<close>

definition QubitOperator_init_value :: "bool \<Rightarrow> term_key \<Rightarrow> complex \<Rightarrow> error + QubitOperator" where
  "QubitOperator_init_value accepts_value term val =
     (if accepts_value then Inr (QubitOperator_init term val) else Inl TypeError)"

definition init_from_paulistring :: "PauliString \<Rightarrow> QubitHamiltonian" where
  "init_from_paulistring ps =
     \<lparr>hamiltonian = QubitOperator_init (key_openfermion ps) (coeff ps)\<rparr>"

text \<open>
  The setter: starting from \<open>QubitOperator.identity()\<close>, every PauliString of the list
  is turned into an operator and added; the result replaces the operator of \<open>self\<close>.
\<close>

fun paulistrings_setter_loop ::
  "bool \<Rightarrow> PauliString list \<Rightarrow> QubitOperator \<Rightarrow> error + QubitOperator" where
  "paulistrings_setter_loop accepts_value [] new_hamiltonian = Inr new_hamiltonian"
| "paulistrings_setter_loop accepts_value (ps # other) new_hamiltonian =
     (case QubitOperator_init_value accepts_value (key_openfermion ps) (coeff ps) of
        Inl e \<Rightarrow> Inl e
      | Inr tmp \<Rightarrow>
          paulistrings_setter_loop accepts_value other (QubitOperator_iadd new_hamiltonian tmp))"

definition paulistrings_setter ::
  "bool \<Rightarrow> QubitHamiltonian \<Rightarrow> PauliString list \<Rightarrow> error + QubitHamiltonian" where
  "paulistrings_setter accepts_value self other =
     (case paulistrings_setter_loop accepts_value other QubitOperator_identity of
        Inl e \<Rightarrow> Inl e
      | Inr new_hamiltonian \<Rightarrow> Inr (self\<lparr>hamiltonian := new_hamiltonian\<rparr>))"

subsection \<open>Gates, circuits and two rewrite rules of the compiler\<close>

text \<open>
  Modelled from the spec: the module tequila.circuit (gates and compiler) is not among
  the sources, only its test tests/test\_recompilation\_routines.py is. A gate has a
  kind, its target qubits in order, its control qubits (held as a list without
  repetition), an optional angle and the dagger flag (spec 3, Gate); a circuit is the
  sequence of its gates, \<open>+\<close> is concatenation and equality is element-wise (spec 3,
  Circuit).
\<close>

datatype gate_kind =
  GX | GY | GZ | GH | GS | GT | GRx | GRy | GRz | GRotation | GExpPauli | GSWAP | GPhase

record Gate =
  kind :: gate_kind
  targets :: "nat list"
  controls :: "nat list"
  parameter :: "real option"
  daggered :: bool

type_synonym Circuit = "Gate list"

text \<open>
  Modelled from the spec: the gate constructors as the test calls them, each giving a
  circuit of one gate. CX is the X gate with one control (the test of SWAP writes it
  \<open>gates.X(target, control)\<close>).
\<close>

definition gate :: "gate_kind \<Rightarrow> nat list \<Rightarrow> nat option \<Rightarrow> Circuit" where
  "gate k ts control =
     [\<lparr>kind = k, targets = ts,
       controls = (case control of None \<Rightarrow> [] | Some c \<Rightarrow> [c]),
       parameter = None, daggered = False\<rparr>]"

definition gates_X :: "nat \<Rightarrow> nat option \<Rightarrow> Circuit" where
  "gates_X target control = gate GX [target] control"

definition gates_H :: "nat \<Rightarrow> nat option \<Rightarrow> Circuit" where
  "gates_H target control = gate GH [target] control"

definition gates_S :: "nat \<Rightarrow> Circuit" where
  "gates_S target = gate GS [target] None"

definition gates_T :: "nat \<Rightarrow> Circuit" where
  "gates_T target = gate GT [target] None"

definition gates_CX :: "nat \<Rightarrow> nat \<Rightarrow> Circuit" where
  "gates_CX target control = gates_X target (Some control)"

definition gates_SWAP :: "nat \<Rightarrow> nat \<Rightarrow> Circuit" where
  "gates_SWAP first second = gate GSWAP [first, second] None"

text \<open>
  Modelled from the spec: \<open>dagger()\<close> of a circuit, the gates in reverse order, each with
  its dagger flag flipped (on a circuit of one gate: S(target, dagger=True)).
\<close>

definition circuit_dagger :: "Circuit \<Rightarrow> Circuit" where
  "circuit_dagger c = rev (map (\<lambda>g. g\<lparr>daggered := \<not> daggered g\<rparr>) c)"

text \<open>
  Modelled from the spec: \<open>compile_swap\<close> (spec 4.4). SWAP(a, b) becomes CX(target=a,
  control=b), CX(target=b, control=a), CX(target=a, control=b); every other gate is
  copied through, and the results are concatenated in the original order.
\<close>

definition compile_swap_gate :: "Gate \<Rightarrow> Circuit" where
  "compile_swap_gate g =
     (if kind g = GSWAP
      then (case targets g of
              [a, b] \<Rightarrow> gates_CX a b @ gates_CX b a @ gates_CX a b
            | _ \<Rightarrow> [g])
      else [g])"

definition compile_swap :: "Circuit \<Rightarrow> Circuit" where
  "compile_swap c = concat (map compile_swap_gate c)"

text \<open>
  Modelled from the spec: \<open>compile_ch\<close> (spec 4.4). A Hadamard gate on one target with
  one control becomes H(target), S(target, dagger=True), CX(target, control),
  H(target), T(target), CX(target, control), T(target), H(target), S(target),
  X(target), S(control); every other gate is copied through.
\<close>

definition compile_ch_gate :: "Gate \<Rightarrow> Circuit" where
  "compile_ch_gate g =
     (if kind g = GH
      then (case (targets g, controls g) of
              ([target], [control]) \<Rightarrow>
                gates_H target None @ circuit_dagger (gates_S target)
                @ gates_CX target control @ gates_H target None @ gates_T target
                @ gates_CX target control @ gates_T target @ gates_H target None
                @ gates_S target @ gates_X target None @ gates_S control
            | _ \<Rightarrow> [g])
      else [g])"

definition compile_ch :: "Circuit \<Rightarrow> Circuit" where
  "compile_ch c = concat (map compile_ch_gate c)"

section \<open>Theorems\<close>

subsection \<open>Helper lemmas on dictionary assignment\<close>

lemma lower_char_y: "lower_char c = CHR ''y'' \<longleftrightarrow> c = CHR ''Y'' \<or> c = CHR ''y''"
  by (auto simp: lower_char_def split: if_splits)

lemma lower_y: "lower p = ''y'' \<longleftrightarrow> p = ''Y'' \<or> p = ''y''"
  by (cases p) (auto simp: lower_def lower_char_y)

lemma sign_loop_count: "sign_loop s key = s * (- 1) ^ count_Y key"
  by (induction key arbitrary: s) (simp_all add: count_Y_def is_Y_def lower_y)

lemma conjugate_loop_fold:
  "conjugate_loop kvs acc =
     \<lparr>terms = fold (\<lambda>(k, v). AList.update k (of_int (sign_loop 1 k) * cnj v)) kvs (terms acc)\<rparr>"
  by (induction kvs arbitrary: acc) auto

lemma transpose_loop_fold:
  "transpose_loop kvs acc =
     \<lparr>terms = fold (\<lambda>(k, v). AList.update k (of_int (sign_loop 1 k) * v)) kvs (terms acc)\<rparr>"
  by (induction kvs arbitrary: acc) auto

lemma dagger_loop_fold:
  "dagger_loop kvs acc = \<lparr>terms = fold (\<lambda>(k, v). AList.update k (cnj v)) kvs (terms acc)\<rparr>"
  by (induction kvs arbitrary: acc) auto

lemma map_of_assign:
  "distinct (map fst kvs) \<Longrightarrow>
   map_of (fold (\<lambda>(k, v). AList.update k (f k v)) kvs d) k =
     (case map_of kvs k of Some v \<Rightarrow> Some (f k v) | None \<Rightarrow> map_of d k)"
proof (induction kvs arbitrary: d)
  case Nil
  then show ?case by simp
next
  case (Cons kv kvs)
  obtain k0 v0 where kv: "kv = (k0, v0)" by (cases kv)
  from Cons.prems kv have fresh: "map_of kvs k0 = None" and dist: "distinct (map fst kvs)"
    by (auto simp: map_of_eq_None_iff)
  show ?case
    using Cons.IH [OF dist, of "AList.update k0 (f k0 v0) d"] fresh
    by (auto simp: kv update_conv' split: option.splits)
qed

lemma update_map_entry:
  "AList.update k (g k x) (map (\<lambda>(k, v). (k, g k v)) d) =
   map (\<lambda>(k, v). (k, g k v)) (AList.update k x d)"
  by (induction d) auto

lemma assign_map_entry:
  "fold (\<lambda>(k, v). AList.update k (g k (f k v))) kvs (map (\<lambda>(k, v). (k, g k v)) d) =
   map (\<lambda>(k, v). (k, g k v)) (fold (\<lambda>(k, v). AList.update k (f k v)) kvs d)"
proof (induction kvs arbitrary: d)
  case Nil
  then show ?case by simp
next
  case (Cons kv kvs)
  obtain k0 v0 where kv: "kv = (k0, v0)" by (cases kv)
  show ?case
    using Cons.IH [of "AList.update k0 (f k0 v0) d"]
    by (simp add: kv update_map_entry)
qed

lemma update_fresh: "k \<notin> fst ` set d \<Longrightarrow> AList.update k v d = d @ [(k, v)]"
  by (induction d) auto

lemma assign_fresh:
  "distinct (map fst (P @ D)) \<Longrightarrow>
   fold (\<lambda>(k, v). AList.update k (g k v)) D (map (\<lambda>(k, v). (k, g k v)) P) =
   map (\<lambda>(k, v). (k, g k v)) (P @ D)"
proof (induction D arbitrary: P)
  case Nil
  then show ?case by simp
next
  case (Cons kv D)
  obtain k0 v0 where kv: "kv = (k0, v0)" by (cases kv)
  from Cons.prems kv have fresh: "k0 \<notin> fst ` set (map (\<lambda>(k, v). (k, g k v)) P)"
    by force
  from Cons.prems kv have dist: "distinct (map fst ((P @ [(k0, v0)]) @ D))"
    by simp
  show ?case
    using Cons.IH [OF dist] update_fresh [OF fresh, of "g k0 v0"]
    by (simp add: kv)
qed

lemma assign_onto_head:
  assumes "distinct (map fst D)" and "D = (k0, v0) # D'"
  shows "fold (\<lambda>(k, v). AList.update k (g k v)) D [(k0, c)] = map (\<lambda>(k, v). (k, g k v)) D"
  using assign_fresh [of "[(k0, v0)]" D' g] assms by simp

lemma assign_distinct:
  "distinct (map fst d) \<Longrightarrow> distinct (map fst (fold (\<lambda>(k, v). AList.update k (f k v)) kvs d))"
  by (induction kvs arbitrary: d) (auto simp: distinct_update)

lemma assign_head:
  "\<exists>c' rest. fold (\<lambda>(k, v). AList.update k (f k v)) kvs ((k0, c) # d) = (k0, c') # rest"
proof (induction kvs arbitrary: c d)
  case Nil
  then show ?case by simp
next
  case (Cons kv kvs)
  obtain k1 v1 where kv: "kv = (k1, v1)" by (cases kv)
  show ?case
    using Cons.IH by (cases "k0 = k1") (simp_all add: kv)
qed

lemma reassign:
  "fold (\<lambda>(k, v). AList.update k (g k v)) (fold (\<lambda>(k, v). AList.update k (f k v)) kvs [(k0, c)]) [(k0, c')]
   = fold (\<lambda>(k, v). AList.update k (g k (f k v))) kvs [(k0, g k0 c)]"
proof -
  let ?D = "fold (\<lambda>(k, v). AList.update k (f k v)) kvs [(k0, c)]"
  obtain c1 rest where D: "?D = (k0, c1) # rest"
    using assign_head [of f kvs k0 c "[]"] by blast
  have "distinct (map fst ?D)" by (rule assign_distinct) simp
  then have "fold (\<lambda>(k, v). AList.update k (g k v)) ?D [(k0, c')] = map (\<lambda>(k, v). (k, g k v)) ?D"
    using D by (rule assign_onto_head)
  also have "\<dots> = fold (\<lambda>(k, v). AList.update k (g k (f k v))) kvs (map (\<lambda>(k, v). (k, g k v)) [(k0, c)])"
    by (rule assign_map_entry [symmetric])
  finally show ?thesis by simp
qed


lemma sign_loop_square: "of_int (sign_loop 1 k) * (of_int (sign_loop 1 k) * z) = (z :: complex)"
proof -
  have "(- 1 :: complex) ^ count_Y k * (- 1) ^ count_Y k = 1"
    by (simp add: power_mult_distrib [symmetric])
  then show ?thesis
    by (simp add: sign_loop_count mult.assoc [symmetric])
qed

text \<open>
  In the code \<open>dagger\<close> coincides with \<open>conjugate\<close> followed by \<open>transpose\<close>: the two
  Y-count signs cancel.
\<close>

lemma dagger_eq_transpose_conjugate: "dagger H = transpose_h (conjugate H)"
  by (simp add: conjugate_def transpose_h_def dagger_def QubitOperator_init_def
      conjugate_loop_fold transpose_loop_fold dagger_loop_fold reassign sign_loop_square)

subsection \<open>conjugate, transpose and dagger\<close>

text \<open>
  C7: for every sum H (a dictionary, so no key twice) and every term of H with key
  \<open>key\<close> and coefficient \<open>val\<close>, \<open>conjugate\<close> maps \<open>key\<close> to the complex conjugate of
  \<open>val\<close> multiplied by (-1) to the power of the number of Y-axis factors of the key.
\<close>

theorem conjugate_lookup:
  "dict_inv (items H) \<Longrightarrow> (key, val) \<in> set (items H) \<Longrightarrow>
   map_of (items (conjugate H)) key = Some ((- 1) ^ count_Y key * cnj val)"
  by (simp add: conjugate_def items_def dict_inv_def QubitOperator_init_def conjugate_loop_fold
      map_of_assign sign_loop_count)

theorem conjugate_lookup_witness:
  "dict_inv (items \<lparr>hamiltonian = \<lparr>terms = [([(0, ''Y''), (1, ''X'')], Complex 1 2)]\<rparr>\<rparr>) \<and>
   ([(0, ''Y''), (1, ''X'')], Complex 1 2)
      \<in> set (items \<lparr>hamiltonian = \<lparr>terms = [([(0, ''Y''), (1, ''X'')], Complex 1 2)]\<rparr>\<rparr>) \<and>
   map_of (items (conjugate \<lparr>hamiltonian = \<lparr>terms = [([(0, ''Y''), (1, ''X'')], Complex 1 2)]\<rparr>\<rparr>))
      [(0, ''Y''), (1, ''X'')] = Some (Complex (- 1) 2)"
proof -
  let ?H = "\<lparr>hamiltonian = \<lparr>terms = [([(0, ''Y''), (1, ''X'')], Complex 1 2)]\<rparr>\<rparr>"
  have inv: "dict_inv (items ?H)"
    by (simp add: dict_inv_def items_def)
  have mem: "([(0, ''Y''), (1, ''X'')], Complex 1 2) \<in> set (items ?H)"
    by (simp add: items_def)
  have "count_Y [(0, ''Y''), (1, ''X'')] = 1"
    by (simp add: count_Y_def is_Y_def pauli_def)
  with conjugate_lookup [OF inv mem] inv mem show ?thesis
    by (simp add: complex_eq_iff)
qed

text \<open>
  C8: for every sum H, \<open>conjugate H\<close> is the same sum as \<open>transpose (dagger H)\<close> and as
  \<open>dagger (transpose H)\<close>: the same dictionary, entry by entry and in the same order,
  hence equal under \<open>==\<close> too.
\<close>

theorem conjugate_eq_transpose_dagger:
  "conjugate H = transpose_h (dagger H) \<and> conjugate H = dagger (transpose_h H) \<and>
   QubitHamiltonian_eq (conjugate H) (transpose_h (dagger H)) \<and>
   QubitHamiltonian_eq (conjugate H) (dagger (transpose_h H))"
proof -
  have same: "conjugate H = transpose_h (dagger H)" "conjugate H = dagger (transpose_h H)"
    by (simp_all add: conjugate_def transpose_h_def dagger_def QubitOperator_init_def
        conjugate_loop_fold transpose_loop_fold dagger_loop_fold reassign)
  have "QubitHamiltonian_eq (conjugate H) (conjugate H)"
    by (simp add: QubitHamiltonian_eq_def QubitOperator_eq_def list_all_iff)
  with same show ?thesis by simp
qed

text \<open>
  C6, as amended: for every sum H (a dictionary, so no key twice), \<open>dagger H\<close> maps
  every key of H to the complex conjugate of its coefficient, with no sign for the Y
  factors; the identity key is always a key of the result, with coefficient 0 when H
  has no identity term; the result has no other key.
\<close>

theorem dagger_lookup:
  "dict_inv (items H) \<Longrightarrow>
   map_of (items (dagger H)) key =
     (case map_of (items H) key of
        Some val \<Rightarrow> Some (cnj val)
      | None \<Rightarrow> if key = [] then Some 0 else None)"
  by (simp add: dagger_def items_def dict_inv_def QubitOperator_init_def dagger_loop_fold
      map_of_assign split: option.splits)

theorem dagger_lookup_witness:
  "dict_inv (items \<lparr>hamiltonian = \<lparr>terms = [([(0, ''Y'')], \<i>)]\<rparr>\<rparr>) \<and>
   map_of (items (dagger \<lparr>hamiltonian = \<lparr>terms = [([(0, ''Y'')], \<i>)]\<rparr>\<rparr>)) [(0, ''Y'')] = Some (- \<i>) \<and>
   map_of (items (dagger \<lparr>hamiltonian = \<lparr>terms = [([(0, ''Y'')], \<i>)]\<rparr>\<rparr>)) [] = Some 0"
proof -
  let ?H = "\<lparr>hamiltonian = \<lparr>terms = [([(0, ''Y'')], \<i>)]\<rparr>\<rparr>"
  have inv: "dict_inv (items ?H)"
    by (simp add: dict_inv_def items_def)
  show ?thesis
    using dagger_lookup [OF inv, of "[(0, ''Y'')]"] dagger_lookup [OF inv, of "[]"] inv
    by (simp add: items_def)
qed

text \<open>
  C6, as stated, fails: on the one-term sum with coefficient i on Y(0), \<open>dagger\<close> returns
  a sum of two terms, the identity key with coefficient 0 and the conjugated term, which
  is not the sum obtained by conjugating the coefficient and changing nothing else.
\<close>

theorem dagger_adds_identity_key:
  "items (dagger \<lparr>hamiltonian = \<lparr>terms = [([(0, ''Y'')], \<i>)]\<rparr>\<rparr>) = [([], 0), ([(0, ''Y'')], - \<i>)] \<and>
   items (conjugate_coefficients_only \<lparr>hamiltonian = \<lparr>terms = [([(0, ''Y'')], \<i>)]\<rparr>\<rparr>)
     = [([(0, ''Y'')], - \<i>)] \<and>
   \<not> QubitHamiltonian_eq (dagger \<lparr>hamiltonian = \<lparr>terms = [([(0, ''Y'')], \<i>)]\<rparr>\<rparr>)
        (conjugate_coefficients_only \<lparr>hamiltonian = \<lparr>terms = [([(0, ''Y'')], \<i>)]\<rparr>\<rparr>)"
  by (simp add: dagger_def conjugate_coefficients_only_def items_def QubitOperator_init_def
      QubitHamiltonian_eq_def QubitOperator_eq_def)

subsection \<open>Hermiticity\<close>

lemma is_hermitian_loop_iff: "is_hermitian_loop vs \<longleftrightarrow> (\<forall>v \<in> set vs. Im v = 0)"
  by (induction vs) auto

lemma is_antihermitian_loop_iff: "is_antihermitian_loop vs \<longleftrightarrow> (\<forall>v \<in> set vs. Re v = 0)"
  by (induction vs) auto

text \<open>
  C9: \<open>is_hermitian\<close> returns True exactly when every coefficient of the sum has zero
  imaginary part, and \<open>is_antihermitian\<close> returns True exactly when every coefficient
  has zero real part.
\<close>

theorem hermiticity_checks:
  "(is_hermitian H \<longleftrightarrow> (\<forall>v \<in> set (values_h H). Im v = 0)) \<and>
   (is_antihermitian H \<longleftrightarrow> (\<forall>v \<in> set (values_h H). Re v = 0))"
  by (simp add: is_hermitian_def is_antihermitian_def
      is_hermitian_loop_iff is_antihermitian_loop_iff)

theorem hermiticity_checks_witness:
  "(is_hermitian \<lparr>hamiltonian = \<lparr>terms = [([], 2), ([(0, ''X'')], \<i>)]\<rparr>\<rparr> \<longleftrightarrow>
      (\<forall>v \<in> set (values_h \<lparr>hamiltonian = \<lparr>terms = [([], 2), ([(0, ''X'')], \<i>)]\<rparr>\<rparr>). Im v = 0)) \<and>
   (is_antihermitian \<lparr>hamiltonian = \<lparr>terms = [([], 2), ([(0, ''X'')], \<i>)]\<rparr>\<rparr> \<longleftrightarrow>
      (\<forall>v \<in> set (values_h \<lparr>hamiltonian = \<lparr>terms = [([], 2), ([(0, ''X'')], \<i>)]\<rparr>\<rparr>). Re v = 0)) \<and>
   \<not> is_hermitian \<lparr>hamiltonian = \<lparr>terms = [([], 2), ([(0, ''X'')], \<i>)]\<rparr>\<rparr> \<and>
   is_hermitian \<lparr>hamiltonian = \<lparr>terms = [([], 2), ([(0, ''X'')], 3)]\<rparr>\<rparr>"
  using hermiticity_checks [of "\<lparr>hamiltonian = \<lparr>terms = [([], 2), ([(0, ''X'')], \<i>)]\<rparr>\<rparr>"]
  by (simp add: is_hermitian_def values_h_def)

subsection \<open>Equality of PauliStrings\<close>

lemma dict_eq_iff:
  assumes "distinct (map fst a)" and "distinct (map fst b)"
  shows "dict_eq a b \<longleftrightarrow> map_of a = map_of b"
proof
  assume eq: "map_of a = map_of b"
  have "length a = card (fst ` set a)"
    using assms(1) distinct_card [of "map fst a"] by simp
  also have "\<dots> = card (fst ` set b)"
    using eq dom_map_of_conv_image_fst [of a] dom_map_of_conv_image_fst [of b] by simp
  also have "\<dots> = length b"
    using assms(2) distinct_card [of "map fst b"] by simp
  finally have len: "length a = length b" .
  have "map_of b k = Some v" if "(k, v) \<in> set a" for k v
    using that assms(1) eq by (metis map_of_is_SomeI)
  then show "dict_eq a b"
    using len by (auto simp: dict_eq_def list_all_iff)
next
  assume de: "dict_eq a b"
  then have len: "length a = length b"
    and ent: "\<And>k v. (k, v) \<in> set a \<Longrightarrow> map_of b k = Some v"
    by (auto simp: dict_eq_def list_all_iff)
  have sub: "fst ` set a \<subseteq> fst ` set b"
  proof
    fix k assume "k \<in> fst ` set a"
    then obtain v where "(k, v) \<in> set a" by auto
    then have "map_of b k = Some v" by (rule ent)
    then show "k \<in> fst ` set b" by (metis map_of_SomeD fst_conv image_eqI)
  qed
  have "card (fst ` set a) = card (fst ` set b)"
    using len assms distinct_card [of "map fst a"] distinct_card [of "map fst b"] by simp
  with sub have keys: "fst ` set a = fst ` set b"
    by (simp add: card_subset_eq)
  show "map_of a = map_of b"
  proof
    fix k
    show "map_of a k = map_of b k"
    proof (cases "map_of a k")
      case None
      then have "k \<notin> fst ` set b" using keys by (simp add: map_of_eq_None_iff)
      then have "map_of b k = None" by (simp add: map_of_eq_None_iff)
      with None show ?thesis by simp
    next
      case (Some v)
      then have "(k, v) \<in> set a" by (rule map_of_SomeD)
      then show ?thesis using Some ent by simp
    qed
  qed
qed


text \<open>
  C10: for two PauliStrings (their \<open>_data\<close> being dicts, so no key twice), \<open>a == b\<close>
  holds exactly when the qubit to axis mappings are equal; the coefficients play no
  role, so replacing them on either side does not change the answer.
\<close>

theorem PauliString_eq_iff:
  assumes "dict_inv (data a)" and "dict_inv (data b)"
  shows "(PauliString_eq a b \<longleftrightarrow> map_of (data a) = map_of (data b)) \<and>
    PauliString_eq (a\<lparr>coeff_opt := c\<rparr>) (b\<lparr>coeff_opt := c'\<rparr>) = PauliString_eq a b"
proof
  from assms have "distinct (map fst (data a))" and "distinct (map fst (data b))"
    by (simp_all add: dict_inv_def)
  then show "PauliString_eq a b \<longleftrightarrow> map_of (data a) = map_of (data b)"
    unfolding PauliString_eq_def by (rule dict_eq_iff)
next
  show "PauliString_eq (a\<lparr>coeff_opt := c\<rparr>) (b\<lparr>coeff_opt := c'\<rparr>) = PauliString_eq a b"
    by (simp add: PauliString_eq_def)
qed

theorem PauliString_eq_iff_witness:
  "dict_inv (data \<lparr>data = [(1, ''x''), (2, ''y'')], coeff_opt = Some 2\<rparr>) \<and>
   dict_inv (data \<lparr>data = [(2, ''y''), (1, ''x'')], coeff_opt = None\<rparr>) \<and>
   PauliString_eq \<lparr>data = [(1, ''x''), (2, ''y'')], coeff_opt = Some 2\<rparr>
     \<lparr>data = [(2, ''y''), (1, ''x'')], coeff_opt = None\<rparr> \<and>
   map_of (data \<lparr>data = [(1, ''x''), (2, ''y'')], coeff_opt = Some 2\<rparr>)
     = map_of (data \<lparr>data = [(2, ''y''), (1, ''x'')], coeff_opt = None\<rparr>) \<and>
   coeff \<lparr>data = [(1, ''x''), (2, ''y'')], coeff_opt = Some 2\<rparr>
     \<noteq> coeff \<lparr>data = [(2, ''y''), (1, ''x'')], coeff_opt = None\<rparr>"
proof -
  let ?a = "\<lparr>data = [(1 :: nat, ''x''), (2, ''y'')], coeff_opt = Some 2\<rparr>"
  let ?b = "\<lparr>data = [(2 :: nat, ''y''), (1, ''x'')], coeff_opt = None\<rparr>"
  have ia: "dict_inv (data ?a)" and ib: "dict_inv (data ?b)"
    by (simp_all add: dict_inv_def)
  have eq: "PauliString_eq ?a ?b"
    by (simp add: PauliString_eq_def dict_eq_def)
  have co: "coeff ?a \<noteq> coeff ?b"
    by (simp add: coeff_def)
  from PauliString_eq_iff [OF ia ib] eq have "map_of (data ?a) = map_of (data ?b)"
    by blast
  with ia ib eq co show ?thesis
    by blast
qed

subsection \<open>n\_qubits\<close>

lemma fold_max_max: "fold max xs (max a b) = max (a :: nat) (fold max xs b)"
proof (induction xs arbitrary: b)
  case Nil
  then show ?case by simp
next
  case (Cons x xs)
  have "max x (max a b) = max a (max x b)" by (rule max.left_commute)
  then show ?case using Cons.IH [of "max x b"] by simp
qed

lemma n_qubits_loop_no_identity:
  "[] \<notin> fst ` set kvs \<Longrightarrow>
   n_qubits_loop n kvs = Inr (fold max (concat (map (\<lambda>key. map index key) (map fst kvs))) n)"
proof (induction kvs arbitrary: n)
  case Nil
  then show ?case by simp
next
  case (Cons kv kvs)
  obtain key val where kv: "kv = (key, val)" by (cases kv)
  from Cons.prems kv obtain t ts where key: "key = t # ts" by (cases key) auto
  from Cons.prems have rest: "[] \<notin> fst ` set kvs" by auto
  show ?case
    using Cons.IH [OF rest]
    by (simp add: kv key py_max_def fold_max_max max.commute)
qed

lemma n_qubits_loop_identity:
  "[] \<in> fst ` set kvs \<Longrightarrow> n_qubits_loop n kvs = Inl ValueError"
proof (induction kvs arbitrary: n)
  case Nil
  then show ?case by simp
next
  case (Cons kv kvs)
  obtain key val where kv: "kv = (key, val)" by (cases kv)
  show ?case
  proof (cases key)
    case Nil
    then show ?thesis by (simp add: kv py_max_def)
  next
    case (Cons t ts)
    with Cons.prems kv have "[] \<in> fst ` set kvs" by auto
    then show ?thesis using Cons.IH by (simp add: kv Cons py_max_def)
  qed
qed

lemma n_qubits_identity_raises: "[] \<in> set (keys H) \<Longrightarrow> n_qubits H = Inl ValueError"
  by (simp add: n_qubits_def items_def keys_def n_qubits_loop_identity)

lemma n_qubits_no_identity:
  assumes "[] \<notin> set (keys H)" and "keys H \<noteq> []"
  shows "n_qubits H = Inr (1 + Max (set (all_indices H)))"
proof -
  from assms obtain key rest where ks: "keys H = key # rest" and ne: "key \<noteq> []"
    by (cases "keys H") auto
  then have nonempty: "set (all_indices H) \<noteq> {}"
    by (auto simp: all_indices_def)
  have "fold max (all_indices H) 0 = Max (set (0 # all_indices H))"
    by (simp only: Max.set_eq_fold)
  also have "\<dots> = Max (set (all_indices H))"
    using nonempty by (simp add: Max_insert)
  finally show ?thesis
    using assms(1) n_qubits_loop_no_identity [of "items H" 0]
    by (simp add: n_qubits_def keys_def items_def all_indices_def)
qed


lemma n_qubits_X0_Y1:
  "n_qubits \<lparr>hamiltonian = \<lparr>terms = [([(0, ''X''), (1, ''Y'')], 1)]\<rparr>\<rparr> = Inr 2"
  by (simp add: n_qubits_def items_def py_max_def index_def)

text \<open>
  C1: on the identity sum (the default QubitHamiltonian), on the zero sum and on the
  sum of an X(0) term and an identity term, \<open>n_qubits\<close> raises ValueError: the maximum
  of the empty list of indices of the identity key is taken. Where no key is the
  identity key, the lemmas above give one plus the largest qubit index.
\<close>

theorem n_qubits_fails_on_identity:
  "n_qubits init_unit = Inl ValueError \<and>
   n_qubits init_zero = Inl ValueError \<and>
   n_qubits \<lparr>hamiltonian = \<lparr>terms = [([(0, ''X'')], 1), ([], 1)]\<rparr>\<rparr> = Inl ValueError"
  by (simp add: n_qubits_def init_unit_def init_zero_def QubitOperator_identity_def
      QubitOperator_init_def items_def py_max_def index_def)

subsection \<open>The paulistrings round trip\<close>

lemma key_openfermion_loop_append: "key_openfermion_loop d key = key @ d"
  by (induction d arbitrary: key) auto

lemma init_from_openfermion_loop_append:
  "distinct (map fst (d @ key)) \<Longrightarrow> init_from_openfermion_loop key d = d @ key"
proof (induction key arbitrary: d)
  case Nil
  then show ?case by simp
next
  case (Cons t key)
  from Cons.prems have fresh: "fst t \<notin> fst ` set d" by auto
  from Cons.prems have dist: "distinct (map fst ((d @ [t]) @ key))" by simp
  show ?case
    using Cons.IH [OF dist] update_fresh [OF fresh, of "snd t"] by simp
qed

lemma key_roundtrip:
  "distinct (map fst key) \<Longrightarrow> key_openfermion (init_from_openfermion key c) = key"
  by (simp add: key_openfermion_def init_from_openfermion_def key_openfermion_loop_append
      init_from_openfermion_loop_append)

lemma setter_loop_accepting:
  "\<forall>key \<in> fst ` set kvs. distinct (map fst key) \<Longrightarrow>
   paulistrings_setter_loop True (map (\<lambda>(k, v). init_from_openfermion k (Some v)) kvs) acc
     = Inr \<lparr>terms = iadd_loop (terms acc) kvs\<rparr>"
proof (induction kvs arbitrary: acc)
  case Nil
  then show ?case by simp
next
  case (Cons kv kvs)
  obtain k v where kv: "kv = (k, v)" by (cases kv)
  from Cons.prems kv have dk: "distinct (map fst k)" by simp
  from Cons.prems have rest: "\<forall>key \<in> fst ` set kvs. distinct (map fst key)" by simp
  have c: "coeff (init_from_openfermion k (Some v)) = v"
    by (simp add: coeff_def init_from_openfermion_def)
  show ?case
    using Cons.IH [OF rest]
    by (simp add: kv c key_roundtrip [OF dk] QubitOperator_init_value_def QubitOperator_iadd_def
        QubitOperator_init_def)
qed

lemma setter_loop_rejecting:
  "other \<noteq> [] \<Longrightarrow> paulistrings_setter_loop False other acc = Inl TypeError"
  by (cases other) (simp_all add: QubitOperator_init_value_def)

lemma map_of_iadd_loop:
  "distinct (map fst kvs) \<Longrightarrow>
   map_of (iadd_loop d kvs) k =
     (case map_of kvs k of
        None \<Rightarrow> map_of d k
      | Some v \<Rightarrow> (case map_of d k of None \<Rightarrow> Some v | Some c \<Rightarrow> Some (c + v)))"
proof (induction kvs arbitrary: d)
  case Nil
  then show ?case by simp
next
  case (Cons kv kvs)
  obtain k0 v0 where kv: "kv = (k0, v0)" by (cases kv)
  from Cons.prems kv have fresh: "map_of kvs k0 = None" and dist: "distinct (map fst kvs)"
    by (auto simp: map_of_eq_None_iff)
  show ?case
    using fresh
    by (auto simp: kv Cons.IH [OF dist] update_conv' split: option.splits)
qed

lemma QubitOperator_eq_iff: "QubitOperator_eq a b \<longleftrightarrow> map_of (terms a) = map_of (terms b)"
proof
  assume "map_of (terms a) = map_of (terms b)"
  then show "QubitOperator_eq a b" by (simp add: QubitOperator_eq_def list_all_iff)
next
  assume eq: "QubitOperator_eq a b"
  show "map_of (terms a) = map_of (terms b)"
  proof
    fix k
    show "map_of (terms a) k = map_of (terms b) k"
    proof (cases "k \<in> fst ` set (terms a) \<or> k \<in> fst ` set (terms b)")
      case True
      with eq show ?thesis by (auto simp: QubitOperator_eq_def list_all_iff)
    next
      case False
      then have "map_of (terms a) k = None" and "map_of (terms b) k = None"
        by (simp_all add: map_of_eq_None_iff)
      then show ?thesis by simp
    qed
  qed
qed

lemma roundtrip_never_equal:
  assumes inv: "dict_inv (items H)"
    and wf: "\<forall>key \<in> set (keys H). distinct (map fst key)"
    and res: "paulistrings_setter accepts_value S (paulistrings H) = Inr H'"
  shows "\<not> QubitHamiltonian_eq H' H"
proof (cases "accepts_value")
  case True
  from wf have wf': "\<forall>key \<in> fst ` set (items H). distinct (map fst key)"
    by (simp add: keys_def items_def)
  from res True have H': "terms (hamiltonian H') = iadd_loop [([], 1)] (items H)"
    by (auto simp: paulistrings_setter_def paulistrings_def setter_loop_accepting [OF wf']
        QubitOperator_identity_def QubitOperator_init_def)
  from inv have dist: "distinct (map fst (items H))" by (simp add: dict_inv_def)
  have "map_of (terms (hamiltonian H')) [] \<noteq> map_of (items H) []"
    by (simp add: H' map_of_iadd_loop [OF dist] split: option.splits)
  then show ?thesis
    by (auto simp: QubitHamiltonian_eq_def QubitOperator_eq_iff items_def)
next
  case False
  with res have empty: "items H = []"
    using setter_loop_rejecting [of "paulistrings H" QubitOperator_identity]
    by (cases "items H") (auto simp: paulistrings_setter_def paulistrings_def)
  with res False have "terms (hamiltonian H') = [([], 1)]"
    by (auto simp: paulistrings_setter_def paulistrings_def QubitOperator_identity_def
        QubitOperator_init_def)
  with empty have "map_of (terms (hamiltonian H')) [] \<noteq> map_of (items H) []" by simp
  then show ?thesis
    by (auto simp: QubitHamiltonian_eq_def QubitOperator_eq_iff items_def)
qed


text \<open>
  What the setter returns does not depend on the operator that \<open>self\<close> held before: the
  new operator replaces it.
\<close>

lemma setter_overwrites:
  "paulistrings_setter accepts_value S other = paulistrings_setter accepts_value S' other"
  by (simp add: paulistrings_setter_def split: sum.splits)

text \<open>
  C2: on the sum H with the single term X(0) of coefficient 1, the list returned by the
  getter, assigned back to H through the setter, does not give a sum equal to H: when
  the constructor rejects the keyword \<open>value\<close> the setter raises TypeError, and when it
  accepts it the new sum is the identity plus the terms of the list.
\<close>

theorem paulistrings_roundtrip_fails:
  "paulistrings_setter False \<lparr>hamiltonian = \<lparr>terms = [([(0, ''X'')], 1)]\<rparr>\<rparr>
     (paulistrings \<lparr>hamiltonian = \<lparr>terms = [([(0, ''X'')], 1)]\<rparr>\<rparr>)
     = Inl TypeError \<and>
   paulistrings_setter True \<lparr>hamiltonian = \<lparr>terms = [([(0, ''X'')], 1)]\<rparr>\<rparr>
     (paulistrings \<lparr>hamiltonian = \<lparr>terms = [([(0, ''X'')], 1)]\<rparr>\<rparr>)
     = Inr \<lparr>hamiltonian = \<lparr>terms = [([], 1), ([(0, ''X'')], 1)]\<rparr>\<rparr> \<and>
   \<not> QubitHamiltonian_eq \<lparr>hamiltonian = \<lparr>terms = [([], 1), ([(0, ''X'')], 1)]\<rparr>\<rparr>
        \<lparr>hamiltonian = \<lparr>terms = [([(0, ''X'')], 1)]\<rparr>\<rparr>"
  by (simp add: paulistrings_setter_def paulistrings_def items_def init_from_openfermion_def
      key_openfermion_def coeff_def QubitOperator_init_value_def QubitOperator_init_def
      QubitOperator_identity_def QubitOperator_iadd_def
      QubitHamiltonian_eq_def QubitOperator_eq_def)

subsection \<open>Compiler rewrite rules\<close>

text \<open>
  C4: compiling SWAP on qubits a and b gives the three gates X(target=a, control=b),
  X(target=b, control=a), X(target=a, control=b), in this order and nothing else; for
  SWAP(0, 3) this is the circuit the test builds. (The constructors of the model build
  a gate from any qubits; that a gate with a qubit both as target and as control is
  refused at construction, spec 7, is not part of the model.)
\<close>

theorem compile_swap_literal:
  "compile_swap (gates_SWAP a b) =
     [\<lparr>kind = GX, targets = [a], controls = [b], parameter = None, daggered = False\<rparr>,
      \<lparr>kind = GX, targets = [b], controls = [a], parameter = None, daggered = False\<rparr>,
      \<lparr>kind = GX, targets = [a], controls = [b], parameter = None, daggered = False\<rparr>] \<and>
   compile_swap (gates_SWAP 0 3) =
     gates_X 0 (Some 3) @ gates_X 3 (Some 0) @ gates_X 0 (Some 3)"
  by (simp add: compile_swap_def compile_swap_gate_def gates_SWAP_def gates_CX_def gates_X_def
      gate_def)

text \<open>
  C5: compiling the Hadamard gate on \<open>target\<close> controlled by \<open>control\<close> gives the eleven
  gates H(target), S(target) daggered, CX(target, control), H(target), T(target),
  CX(target, control), T(target), H(target), S(target), X(target), S(control), in
  this order; for target 2 and control 4 this is the circuit the test builds.
\<close>

theorem compile_ch_literal:
  "compile_ch (gates_H target (Some control)) =
     [\<lparr>kind = GH, targets = [target], controls = [], parameter = None, daggered = False\<rparr>,
      \<lparr>kind = GS, targets = [target], controls = [], parameter = None, daggered = True\<rparr>,
      \<lparr>kind = GX, targets = [target], controls = [control], parameter = None, daggered = False\<rparr>,
      \<lparr>kind = GH, targets = [target], controls = [], parameter = None, daggered = False\<rparr>,
      \<lparr>kind = GT, targets = [target], controls = [], parameter = None, daggered = False\<rparr>,
      \<lparr>kind = GX, targets = [target], controls = [control], parameter = None, daggered = False\<rparr>,
      \<lparr>kind = GT, targets = [target], controls = [], parameter = None, daggered = False\<rparr>,
      \<lparr>kind = GH, targets = [target], controls = [], parameter = None, daggered = False\<rparr>,
      \<lparr>kind = GS, targets = [target], controls = [], parameter = None, daggered = False\<rparr>,
      \<lparr>kind = GX, targets = [target], controls = [], parameter = None, daggered = False\<rparr>,
      \<lparr>kind = GS, targets = [control], controls = [], parameter = None, daggered = False\<rparr>] \<and>
   compile_ch (gates_H 2 (Some 4)) =
     gates_H 2 None @ circuit_dagger (gates_S 2) @ gates_CX 2 4 @ gates_H 2 None @ gates_T 2
     @ gates_CX 2 4 @ gates_T 2 @ gates_H 2 None @ gates_S 2 @ gates_X 2 None @ gates_S 4"
  by (simp add: compile_ch_def compile_ch_gate_def gates_H_def gates_S_def gates_T_def
      gates_CX_def gates_X_def gate_def circuit_dagger_def)

end
